theory Spec2Isabelle
  imports Main "HOL-Library.AList" "HOL-Library.Multiset" "HOL-Library.Sublist" "HOL-Library.Char_ord"
begin

section \<open>JavaScript values\<close>

text \<open>
  The logger stores headers and bodies typed \<^verbatim>\<open>any\<close>. The values that reach it are
  modelled by the datatype below. A JavaScript string is a sequence of UTF-16 code units;
  here it is a \<^typ>\<open>string\<close> in which every character stands for one code unit, so that
  \<^verbatim>\<open>s.length\<close> is \<^term>\<open>length s\<close> and \<^verbatim>\<open>s.substring(0, n)\<close> is \<^term>\<open>take n s\<close>.
  Numbers are the integral ones plus \<^verbatim>\<open>NaN\<close>. An object is the list of its own
  enumerable properties in insertion order.
\<close>

datatype jsval =
    JUndefined
  | JNull
  | JBool bool
  | JNum int
  | JNaN
  | JBigInt int
  | JStr string
  | JArr "jsval list"
  | JObj "(string \<times> jsval) list"

type_synonym js_object = "(string \<times> jsval) list"

datatype js_type = TUndefined | TObject | TBoolean | TNumber | TBigint | TString

text \<open>The \<^verbatim>\<open>typeof\<close> operator; \<^verbatim>\<open>typeof null\<close> is \<^verbatim>\<open>'object'\<close>.\<close>

fun typeof :: "jsval \<Rightarrow> js_type" where
  "typeof JUndefined = TUndefined"
| "typeof JNull = TObject"
| "typeof (JBool b) = TBoolean"
| "typeof (JNum n) = TNumber"
| "typeof JNaN = TNumber"
| "typeof (JBigInt n) = TBigint"
| "typeof (JStr s) = TString"
| "typeof (JArr xs) = TObject"
| "typeof (JObj ps) = TObject"

text \<open>
  Conversion to boolean, as \<^verbatim>\<open>if (v)\<close> and \<^verbatim>\<open>!v\<close> perform it: the falsy values are
  \<^verbatim>\<open>undefined\<close>, \<^verbatim>\<open>null\<close>, \<^verbatim>\<open>false\<close>, \<^verbatim>\<open>0\<close>, \<^verbatim>\<open>NaN\<close>, \<^verbatim>\<open>0n\<close> and the empty string.
\<close>

fun truthy :: "jsval \<Rightarrow> bool" where
  "truthy JUndefined = False"
| "truthy JNull = False"
| "truthy (JBool b) = b"
| "truthy (JNum n) = (n \<noteq> 0)"
| "truthy JNaN = False"
| "truthy (JBigInt n) = (n \<noteq> 0)"
| "truthy (JStr s) = (s \<noteq> [])"
| "truthy (JArr xs) = True"
| "truthy (JObj ps) = True"

text \<open>Property read \<^verbatim>\<open>obj[k]\<close>: an absent property reads as \<^verbatim>\<open>undefined\<close>.\<close>

definition get_prop :: "js_object \<Rightarrow> string \<Rightarrow> jsval" where
  "get_prop obj k = (case map_of obj k of None \<Rightarrow> JUndefined | Some v \<Rightarrow> v)"

text \<open>
  Property write \<^verbatim>\<open>obj[k] = v\<close>: an existing property keeps its place, a new one goes
  last. This is \<^const>\<open>AList.update\<close>.
\<close>

definition set_prop :: "string \<Rightarrow> jsval \<Rightarrow> js_object \<Rightarrow> js_object" where
  "set_prop k v obj = AList.update k v obj"

section \<open>The sanitizer (requestLogger.ts, lines 167 to 199)\<close>

definition REDACTED :: string where
  "REDACTED = ''[REDACTED]''"

definition TRUNCATED :: string where
  "TRUNCATED = ''... [TRUNCATED]''"

definition UNPARSEABLE :: string where
  "UNPARSEABLE = ''[UNPARSEABLE OBJECT]''"

text \<open>
  \<^verbatim>\<open>sanitizeHeaders\<close> copies the header object with a spread and overwrites the two
  properties named exactly \<^verbatim>\<open>authorization\<close> and \<^verbatim>\<open>x-api-key\<close> when their value is truthy.
  (A \<^verbatim>\<open>null\<close> or \<^verbatim>\<open>undefined\<close> argument spreads to the empty object, the list \<open>[]\<close>.)
\<close>

definition sanitizeHeaders :: "js_object \<Rightarrow> js_object" where
  "sanitizeHeaders headers =
     (let sanitized = headers;
          sanitized = (if truthy (get_prop sanitized ''authorization'')
                       then set_prop ''authorization'' (JStr REDACTED) sanitized
                       else sanitized);
          sanitized = (if truthy (get_prop sanitized ''x-api-key'')
                       then set_prop ''x-api-key'' (JStr REDACTED) sanitized
                       else sanitized)
      in sanitized)"

text \<open>
  \<^verbatim>\<open>JSON.stringify\<close> belongs to the platform, so \<^verbatim>\<open>sanitizeBody\<close> takes it as the
  parameter \<open>stringify\<close>: \<open>stringify v 0\<close> is \<^verbatim>\<open>JSON.stringify(v)\<close> and \<open>stringify v 2\<close>
  is \<^verbatim>\<open>JSON.stringify(v, null, 2)\<close>. The result \<open>None\<close> stands for every outcome that
  leaves the \<^verbatim>\<open>try\<close> block through \<^verbatim>\<open>catch\<close>: the call throws (a cyclic structure, a
  BigInt), or it returns \<^verbatim>\<open>undefined\<close> and the following \<^verbatim>\<open>.length\<close> or \<^verbatim>\<open>.substring\<close>
  throws.
\<close>

type_synonym stringify = "jsval \<Rightarrow> nat \<Rightarrow> string option"

definition sanitizeBody :: "stringify \<Rightarrow> jsval \<Rightarrow> jsval" where
  "sanitizeBody stringify body =
     (if \<not> truthy body then body
      else case body of
        JStr s \<Rightarrow> (if length s > 1000 then JStr (take 1000 s @ TRUNCATED) else body)
      | _ \<Rightarrow>
        (if typeof body = TObject then
           (case stringify body 0 of
              None \<Rightarrow> JStr UNPARSEABLE
            | Some str \<Rightarrow>
                (if length str > 1000 then
                   (case stringify body 2 of
                      None \<Rightarrow> JStr UNPARSEABLE
                    | Some pretty \<Rightarrow> JStr (take 1000 pretty @ TRUNCATED))
                 else body))
         else body))"


section \<open>The record store and the persistence writer (requestLogger.ts)\<close>

text \<open>
  \<^verbatim>\<open>RequestLogEntry\<close>; its fields \<^verbatim>\<open>id\<close> and \<^verbatim>\<open>method\<close> are \<open>entry_id\<close> and
  \<open>entry_method\<close> here. The objects \<^verbatim>\<open>{headers, body}\<close>, \<^verbatim>\<open>{url, method, headers, body,
  provider}\<close> and \<^verbatim>\<open>{status, headers, body, duration}\<close> share the first two fields. The
  timestamp is \<^verbatim>\<open>new Date().toISOString()\<close>; it is kept as the number of milliseconds it
  encodes, because on these fixed-width strings \<^verbatim>\<open>localeCompare\<close> orders as the numbers do.
\<close>

record payload =
  headers :: js_object
  body :: jsval

record transformed = payload +
  t_url :: string
  t_method :: string
  provider :: string

record stage_response = payload +
  status :: int
  duration :: int

record routing_info =
  tokenCount :: int
  selectedModel :: string
  routingReason :: string

record error_info =
  message :: string
  stack :: "string option"

record RequestLogEntry =
  entry_id :: string
  timestamp :: int
  url :: string
  entry_method :: string
  originalRequest :: payload
  routing :: routing_info
  transformedRequest :: "transformed option"
  providerResponse :: "stage_response option"
  response :: "stage_response option"
  error :: "error_info option"

text \<open>The fields of the inbound request that \<^verbatim>\<open>logRequest\<close> reads.\<close>

record request =
  req_method :: string
  req_url :: string
  req_headers :: js_object
  req_body :: jsval

text \<open>
  What a call reads from its environment: the variable \<^verbatim>\<open>process.env.REQUEST_LOG\<close>, the
  clock \<^verbatim>\<open>Date.now()\<close>, and whether serialising the entry and \<^verbatim>\<open>fs.appendFileSync\<close> both
  succeed (\<open>write_ok\<close>).
\<close>

record env =
  REQUEST_LOG :: "string option"
  now :: int
  write_ok :: bool

datatype wire_event = OrigWrite "string option" | OrigEnd "string option"

text \<open>
  The mutable state: the fields \<^verbatim>\<open>logs\<close> (a \<^verbatim>\<open>Map\<close>, which iterates in insertion order:
  an association list) and \<^verbatim>\<open>maxLogs\<close> of the \<^verbatim>\<open>RequestLogger\<close> instance, the lines
  appended to \<^verbatim>\<open>requests.jsonl\<close> (each kept as the entry that was serialised), the
  diagnostics printed on the console, the process-wide variable
  \<^verbatim>\<open>global.currentRequestId\<close>, and the calls forwarded to the original \<^verbatim>\<open>write\<close> and
  \<^verbatim>\<open>end\<close> of outbound requests.
\<close>

record world =
  logs :: "(string \<times> RequestLogEntry) list"
  maxLogs :: nat
  log_file :: "RequestLogEntry list"
  console :: "string list"
  currentRequestId :: "string option"
  wire :: "wire_event list"

definition new_world :: world where
  "new_world = \<lparr>logs = [], maxLogs = 1000, log_file = [], console = [],
                 currentRequestId = None, wire = []\<rparr>"

definition logging_disabled :: "env \<Rightarrow> bool" where
  "logging_disabled e = (REQUEST_LOG e = Some ''false'')"

text \<open>
  \<^verbatim>\<open>cleanup\<close>: \<^verbatim>\<open>Array.prototype.sort\<close> is stable, as is \<^const>\<open>sort_key\<close>;
  \<^verbatim>\<open>slice(0, n)\<close> is \<^const>\<open>take\<close>; \<^verbatim>\<open>Map.delete\<close> is \<^const>\<open>AList.delete\<close>.
\<close>

definition cleanup :: "world \<Rightarrow> world" where
  "cleanup w =
     (if length (logs w) > maxLogs w then
        (let entries = logs w;
             sorted = sort_key (\<lambda>a. timestamp (snd a)) entries;
             toDelete = take (length sorted - maxLogs w) sorted
         in w\<lparr>logs := fold (\<lambda>a m. AList.delete (fst a) m) toDelete (logs w)\<rparr>)
      else w)"

definition new_entry :: "stringify \<Rightarrow> env \<Rightarrow> string \<Rightarrow> request \<Rightarrow> RequestLogEntry" where
  "new_entry S e i req =
     \<lparr>entry_id = i, timestamp = now e, url = req_url req, entry_method = req_method req,
      originalRequest = \<lparr>headers = sanitizeHeaders (req_headers req),
                          body = sanitizeBody S (req_body req)\<rparr>,
      routing = \<lparr>tokenCount = 0, selectedModel = [], routingReason = []\<rparr>,
      transformedRequest = None, providerResponse = None,
      response = None, error = None\<rparr>"

definition logRequest :: "stringify \<Rightarrow> env \<Rightarrow> string \<Rightarrow> request \<Rightarrow> world \<Rightarrow> world" where
  "logRequest S e i req w =
     (if logging_disabled e then w
      else
        (let entry = new_entry S e i req
         in cleanup (w\<lparr>logs := AList.update i entry (logs w)\<rparr>)))"

definition logRouting :: "env \<Rightarrow> string \<Rightarrow> int \<Rightarrow> string \<Rightarrow> string \<Rightarrow> world \<Rightarrow> world" where
  "logRouting e i tokens model reason w =
     (if logging_disabled e then w
      else case map_of (logs w) i of
        None \<Rightarrow> w
      | Some entry \<Rightarrow>
          w\<lparr>logs := AList.update i
                (entry\<lparr>routing := \<lparr>tokenCount = tokens, selectedModel = model,
                                    routingReason = reason\<rparr>\<rparr>) (logs w)\<rparr>)"

definition logTransformedRequest ::
  "stringify \<Rightarrow> env \<Rightarrow> string \<Rightarrow> string \<Rightarrow> string \<Rightarrow> js_object \<Rightarrow> jsval \<Rightarrow> string \<Rightarrow> world \<Rightarrow> world" where
  "logTransformedRequest S e i u m hs b p w =
     (if logging_disabled e then w
      else case map_of (logs w) i of
        None \<Rightarrow> w
      | Some entry \<Rightarrow>
          w\<lparr>logs := AList.update i
                (entry\<lparr>transformedRequest :=
                   Some \<lparr>headers = sanitizeHeaders hs, body = sanitizeBody S b,
                         t_url = u, t_method = m, provider = p\<rparr>\<rparr>) (logs w)\<rparr>)"

definition logProviderResponse ::
  "stringify \<Rightarrow> env \<Rightarrow> string \<Rightarrow> int \<Rightarrow> js_object \<Rightarrow> jsval \<Rightarrow> int \<Rightarrow> world \<Rightarrow> world" where
  "logProviderResponse S e i st hs b startTime w =
     (if logging_disabled e then w
      else case map_of (logs w) i of
        None \<Rightarrow> w
      | Some entry \<Rightarrow>
          w\<lparr>logs := AList.update i
                (entry\<lparr>providerResponse :=
                   Some \<lparr>headers = sanitizeHeaders hs, body = sanitizeBody S b,
                         status = st, duration = now e - startTime\<rparr>\<rparr>) (logs w)\<rparr>)"

text \<open>
  \<^verbatim>\<open>writeToFile\<close>: one line appended; a failure is caught and reported on the console.
\<close>

definition writeToFile :: "env \<Rightarrow> RequestLogEntry \<Rightarrow> world \<Rightarrow> world" where
  "writeToFile e entry w =
     (if write_ok e then w\<lparr>log_file := log_file w @ [entry]\<rparr>
      else w\<lparr>console := console w @ [''Failed to write request log:'']\<rparr>)"

definition logResponse ::
  "stringify \<Rightarrow> env \<Rightarrow> string \<Rightarrow> int \<Rightarrow> js_object \<Rightarrow> jsval \<Rightarrow> int \<Rightarrow> world \<Rightarrow> world" where
  "logResponse S e i st hs b startTime w =
     (case map_of (logs w) i of
        None \<Rightarrow> w
      | Some entry \<Rightarrow>
          (let entry' = entry\<lparr>response :=
                   Some \<lparr>headers = sanitizeHeaders hs, body = sanitizeBody S b,
                         status = st, duration = now e - startTime\<rparr>\<rparr>
           in writeToFile e entry' (w\<lparr>logs := AList.update i entry' (logs w)\<rparr>)))"

text \<open>
  \<^verbatim>\<open>logError\<close> receives whatever was caught. \<open>None\<close> is a \<^verbatim>\<open>null\<close> or \<^verbatim>\<open>undefined\<close>
  value: reading \<^verbatim>\<open>error.message\<close> then throws a \<^verbatim>\<open>TypeError\<close>, before the entry is
  touched.
\<close>

datatype js_exception = TypeError

definition logError :: "env \<Rightarrow> string \<Rightarrow> error_info option \<Rightarrow> world \<Rightarrow> js_exception + world" where
  "logError e i err w =
     (case map_of (logs w) i of
        None \<Rightarrow> Inr w
      | Some entry \<Rightarrow>
          (case err of
             None \<Rightarrow> Inl TypeError
           | Some er \<Rightarrow>
               (let entry' = entry\<lparr>error := Some \<lparr>message = message er, stack = stack er\<rparr>\<rparr>
                in Inr (writeToFile e entry' (w\<lparr>logs := AList.update i entry' (logs w)\<rparr>)))))"

definition getLogById :: "string \<Rightarrow> world \<Rightarrow> RequestLogEntry option" where
  "getLogById i w = map_of (logs w) i"

text \<open>
  The calls a client of the logger can make, and a run of calls. A call that throws
  leaves the state as it was (the exception goes to the caller), and later calls still
  happen.
\<close>

datatype op =
    LogRequest string request
  | LogRouting string int string string
  | LogTransformedRequest string string string js_object jsval string
  | LogProviderResponse string int js_object jsval int
  | LogResponse string int js_object jsval int
  | LogError string "error_info option"

fun apply_op :: "stringify \<Rightarrow> env \<Rightarrow> op \<Rightarrow> world \<Rightarrow> js_exception + world" where
  "apply_op S e (LogRequest i req) w = Inr (logRequest S e i req w)"
| "apply_op S e (LogRouting i n m r) w = Inr (logRouting e i n m r w)"
| "apply_op S e (LogTransformedRequest i u m hs b p) w =
     Inr (logTransformedRequest S e i u m hs b p w)"
| "apply_op S e (LogProviderResponse i st hs b t0) w =
     Inr (logProviderResponse S e i st hs b t0 w)"
| "apply_op S e (LogResponse i st hs b t0) w = Inr (logResponse S e i st hs b t0 w)"
| "apply_op S e (LogError i err) w = logError e i err w"

fun run :: "stringify \<Rightarrow> (env \<times> op) list \<Rightarrow> world \<Rightarrow> world" where
  "run S [] w = w"
| "run S (c # cs) w =
     run S cs (case apply_op S (fst c) (snd c) w of Inl x \<Rightarrow> w | Inr w' \<Rightarrow> w')"


section \<open>The correlation context and the interceptor (httpInterceptor.ts)\<close>

text \<open>
  The correlation id lives in the process-wide variable \<^verbatim>\<open>global.currentRequestId\<close>;
  \<^verbatim>\<open>delete\<close> makes it \<^verbatim>\<open>undefined\<close> again.
\<close>

definition getCurrentRequestId :: "world \<Rightarrow> string option" where
  "getCurrentRequestId w = currentRequestId w"

definition setCurrentRequestId :: "string \<Rightarrow> world \<Rightarrow> world" where
  "setCurrentRequestId i w = w\<lparr>currentRequestId := Some i\<rparr>"

definition clearCurrentRequestId :: "world \<Rightarrow> world" where
  "clearCurrentRequestId w = w\<lparr>currentRequestId := None\<rparr>"

text \<open>
  Two more platform functions are parameters: \<open>hostname_of u\<close> is
  \<^verbatim>\<open>new URL(u).hostname\<close>, and \<open>parse s\<close> is \<^verbatim>\<open>JSON.parse(s)\<close>; \<open>None\<close> means that the
  call throws.
\<close>

type_synonym url_hostname = "string \<Rightarrow> string option"

type_synonym json_parse = "string \<Rightarrow> jsval option"

text \<open>\<^verbatim>\<open>s.includes(d)\<close>: \<open>d\<close> occurs in \<open>s\<close> as a contiguous piece.\<close>

fun str_includes :: "string \<Rightarrow> string \<Rightarrow> bool" where
  "str_includes [] d = (d = [])"
| "str_includes (c # cs) d = (prefix d (c # cs) \<or> str_includes cs d)"

definition providerDomains :: "string list" where
  "providerDomains =
     [''api.openai.com'', ''openrouter.ai'', ''api.deepseek.com'',
      ''generativelanguage.googleapis.com'', ''api.anthropic.com'', ''httpbin.org'']"

definition isProviderRequest :: "url_hostname \<Rightarrow> string \<Rightarrow> bool" where
  "isProviderRequest hostname_of u =
     (case hostname_of u of
        None \<Rightarrow> False
      | Some hostname \<Rightarrow> list_ex (\<lambda>domain. str_includes hostname domain) providerDomains)"

definition extractProvider :: "url_hostname \<Rightarrow> string \<Rightarrow> string" where
  "extractProvider hostname_of u =
     (case hostname_of u of
        None \<Rightarrow> ''unknown''
      | Some hostname \<Rightarrow>
          (if str_includes hostname ''openrouter.ai'' then ''openrouter''
           else if str_includes hostname ''api.deepseek.com'' then ''deepseek''
           else if str_includes hostname ''api.openai.com'' then ''openai''
           else if str_includes hostname ''generativelanguage.googleapis.com'' then ''gemini''
           else if str_includes hostname ''api.anthropic.com'' then ''anthropic''
           else if str_includes hostname ''httpbin.org'' then ''test''
           else hostname))"

record InterceptedRequest =
  ir_requestId :: "string option"
  ir_startTime :: int
  ir_url :: string
  ir_method :: string
  ir_headers :: js_object
  ir_body :: "string option"
  ir_provider :: string

text \<open>
  The wrapper that \<^verbatim>\<open>createInterceptor\<close> returns, up to the point where the original
  request function is called. The arguments \<open>u\<close>, \<open>m\<close> and \<open>hs\<close> are the url, method and
  headers it derives from the call's options. The result \<open>None\<close> is the untouched
  pass-through of a call that does not go to a provider. The correlation id is read here,
  once, and an empty id is not stored (\<^verbatim>\<open>if (requestId)\<close>).
\<close>

definition createInterceptor ::
  "url_hostname \<Rightarrow> env \<Rightarrow> string \<Rightarrow> string \<Rightarrow> js_object \<Rightarrow> world \<Rightarrow> InterceptedRequest option" where
  "createInterceptor hostname_of e u m hs w =
     (if \<not> isProviderRequest hostname_of u then None
      else Some \<lparr>ir_requestId =
                   (case getCurrentRequestId w of
                      None \<Rightarrow> None
                    | Some requestId \<Rightarrow> if requestId \<noteq> [] then Some requestId else None),
                 ir_startTime = now e, ir_url = u, ir_method = m, ir_headers = hs,
                 ir_body = None, ir_provider = extractProvider hostname_of u\<rparr>)"

text \<open>
  The overrides of \<^verbatim>\<open>req.write\<close> and \<^verbatim>\<open>req.end\<close>. The text written so far is the
  closure variable \<^verbatim>\<open>body\<close>; a chunk is \<open>None\<close> when the argument is absent. Both forward
  to the original method, whatever happened before.
\<close>

definition req_write :: "string \<Rightarrow> string option \<Rightarrow> world \<Rightarrow> string \<times> world" where
  "req_write acc chunk w =
     ((case chunk of None \<Rightarrow> acc | Some c \<Rightarrow> if c \<noteq> [] then acc @ c else acc),
      w\<lparr>wire := wire w @ [OrigWrite chunk]\<rparr>)"

definition req_end ::
  "stringify \<Rightarrow> json_parse \<Rightarrow> env \<Rightarrow> InterceptedRequest \<Rightarrow> string \<Rightarrow> string option \<Rightarrow> world
     \<Rightarrow> InterceptedRequest \<times> world" where
  "req_end S parse e ir acc chunk w =
     (let acc' = (case chunk of None \<Rightarrow> acc | Some c \<Rightarrow> if c \<noteq> [] then acc @ c else acc);
          ir' = ir\<lparr>ir_body := Some acc'\<rparr>;
          w' = (case ir_requestId ir' of
                  None \<Rightarrow> w
                | Some requestId \<Rightarrow>
                    (if requestId = [] then w
                     else case (if acc' \<noteq> [] then parse acc' else Some JNull) of
                       None \<Rightarrow> w\<lparr>console := console w @ [''Failed to log transformed request:'']\<rparr>
                     | Some parsedBody \<Rightarrow>
                         logTransformedRequest S e requestId (ir_url ir') (ir_method ir')
                           (ir_headers ir') parsedBody
                           (if ir_provider ir' \<noteq> [] then ir_provider ir' else ''unknown'') w))
      in (ir', w'\<lparr>wire := wire w' @ [OrigEnd chunk]\<rparr>))"

text \<open>
  \<^verbatim>\<open>handleResponse\<close>: the listener for \<^verbatim>\<open>data\<close> appends to \<^verbatim>\<open>responseBody\<close>, the
  listener for \<^verbatim>\<open>end\<close> reports to the logger.
\<close>

definition handleResponse_data :: "string \<Rightarrow> string \<Rightarrow> string" where
  "handleResponse_data responseBody chunk = responseBody @ chunk"

definition handleResponse_end ::
  "stringify \<Rightarrow> json_parse \<Rightarrow> env \<Rightarrow> InterceptedRequest \<Rightarrow> string \<Rightarrow> int \<Rightarrow> js_object \<Rightarrow> world
     \<Rightarrow> world" where
  "handleResponse_end S parse e ir responseBody statusCode res_headers w =
     (case ir_requestId ir of
        None \<Rightarrow> w
      | Some requestId \<Rightarrow>
          (if requestId = [] then w
           else case (if responseBody \<noteq> [] then parse responseBody else Some JNull) of
             None \<Rightarrow> w\<lparr>console := console w @ [''Failed to log provider response:'']\<rparr>
           | Some parsedBody \<Rightarrow>
               logProviderResponse S e requestId statusCode res_headers parsedBody
                 (ir_startTime ir) w))"

section \<open>The server hooks that arm and clear the correlation id\<close>

text \<open>
  The second \<^verbatim>\<open>preHandler\<close> hook and the \<^verbatim>\<open>onSend\<close> hook of the server's \<^verbatim>\<open>run\<close>
  function. After arming, \<^verbatim>\<open>preHandler\<close> starts the router, which is outside this
  development; its provider calls are the events below. In \<^verbatim>\<open>onSend\<close> the \<^verbatim>\<open>catch\<close>
  branch is not reached, since \<^const>\<open>logResponse\<close> does not throw.
\<close>

definition preHandler :: "string \<Rightarrow> string option \<Rightarrow> world \<Rightarrow> world" where
  "preHandler u requestId w =
     (if prefix ''/v1/messages'' u then
        (case requestId of
           None \<Rightarrow> w
         | Some i \<Rightarrow> if i \<noteq> [] then setCurrentRequestId i w else w)
      else w)"

definition onSend ::
  "stringify \<Rightarrow> json_parse \<Rightarrow> env \<Rightarrow> string \<Rightarrow> string option \<Rightarrow> int option \<Rightarrow> int \<Rightarrow> js_object
     \<Rightarrow> jsval \<Rightarrow> world \<Rightarrow> world" where
  "onSend S parse e u requestId startTime statusCode reply_headers payload w =
     (case requestId of
        None \<Rightarrow> w
      | Some i \<Rightarrow>
          (if prefix ''/v1/messages'' u \<and> i \<noteq> [] then
             (let t0 = (case startTime of None \<Rightarrow> now e
                        | Some t \<Rightarrow> if t \<noteq> 0 then t else now e);
                  responseBody =
                    (case payload of
                       JStr s \<Rightarrow> (case parse s of None \<Rightarrow> payload | Some v \<Rightarrow> v)
                     | _ \<Rightarrow> payload)
              in clearCurrentRequestId
                   (logResponse S e i statusCode reply_headers responseBody t0 w))
           else w))"

text \<open>
  Node runs each callback to its end before the next one starts, so a concurrent execution
  is an interleaving of callbacks. The three kinds that touch the correlation id are:
  the \<^verbatim>\<open>preHandler\<close> hook of an inbound request; a provider call, made by the unit of
  work of the inbound request named in its first field (this origin is known to the
  observer only, the code never sees it), which creates the outbound request and ends it
  with one chunk; and the \<^verbatim>\<open>onSend\<close> hook.
\<close>

datatype event =
    PreHandler string "string option"
  | ProviderCall string string string js_object "string option"
  | OnSend string "string option" "int option" int js_object jsval

fun exec_event ::
  "stringify \<Rightarrow> json_parse \<Rightarrow> url_hostname \<Rightarrow> env \<Rightarrow> event \<Rightarrow> world \<Rightarrow> world" where
  "exec_event S parse hostname_of e (PreHandler u requestId) w = preHandler u requestId w"
| "exec_event S parse hostname_of e (ProviderCall origin u m hs chunk) w =
     (case createInterceptor hostname_of e u m hs w of
        None \<Rightarrow> w\<lparr>wire := wire w @ [OrigEnd chunk]\<rparr>
      | Some ir \<Rightarrow> snd (req_end S parse e ir [] chunk w))"
| "exec_event S parse hostname_of e (OnSend u requestId startTime st hs payload) w =
     onSend S parse e u requestId startTime st hs payload w"

fun run_events ::
  "stringify \<Rightarrow> json_parse \<Rightarrow> url_hostname \<Rightarrow> (env \<times> event) list \<Rightarrow> world \<Rightarrow> world" where
  "run_events S parse hostname_of [] w = w"
| "run_events S parse hostname_of (c # cs) w =
     run_events S parse hostname_of cs (exec_event S parse hostname_of (fst c) (snd c) w)"


section \<open>Notions used to state the properties\<close>

text \<open>
  Case-insensitive matching of a header name, as the specification words it: the name is
  compared after folding the letters \<open>A\<close> to \<open>Z\<close> to lower case.
\<close>

definition lower_char :: "char \<Rightarrow> char" where
  "lower_char c =
     (case map_of (zip ''ABCDEFGHIJKLMNOPQRSTUVWXYZ'' ''abcdefghijklmnopqrstuvwxyz'') c of
        None \<Rightarrow> c
      | Some d \<Rightarrow> d)"

definition toLowerCase :: "string \<Rightarrow> string" where
  "toLowerCase s = map lower_char s"

definition sensitive_names :: "string set" where
  "sensitive_names = {''authorization'', ''x-api-key''}"

text \<open>\<open>comes_before xs a b\<close>: \<open>b\<close> occurs in \<open>xs\<close> after the first occurrence of \<open>a\<close>.\<close>

fun comes_before :: "'a list \<Rightarrow> 'a \<Rightarrow> 'a \<Rightarrow> bool" where
  "comes_before [] a b = False"
| "comes_before (x # xs) a b = (if x = a then b \<in> set xs else comes_before xs a b)"

text \<open>
  The entries that a call of \<^const>\<open>logRequest\<close> hands to \<^verbatim>\<open>Map.delete\<close>: the store as it
  is after \<^verbatim>\<open>logs.set\<close>, sorted, cut to the excess over \<^verbatim>\<open>maxLogs\<close>.
\<close>

definition after_set :: "stringify \<Rightarrow> env \<Rightarrow> string \<Rightarrow> request \<Rightarrow> world \<Rightarrow> (string \<times> RequestLogEntry) list" where
  "after_set S e i req w = AList.update i (new_entry S e i req) (logs w)"

definition evicted :: "nat \<Rightarrow> (string \<times> RequestLogEntry) list \<Rightarrow> (string \<times> RequestLogEntry) list" where
  "evicted cap entries = take (length entries - cap) (sort_key (\<lambda>a. timestamp (snd a)) entries)"

text \<open>A completing call on the record \<open>i\<close> that gets as far as the write.\<close>

fun completes :: "string \<Rightarrow> op \<Rightarrow> bool" where
  "completes i (LogResponse j st hs b t0) = (j = i)"
| "completes i (LogError j err) = (j = i \<and> err \<noteq> None)"
| "completes i other = False"

section \<open>Sample inputs\<close>

text \<open>
  The values of the three platform functions on the inputs of the examples. Each table
  lists what \<^verbatim>\<open>JSON.stringify\<close>, \<^verbatim>\<open>JSON.parse\<close> and \<^verbatim>\<open>new URL(u).hostname\<close> give on the
  listed arguments (\<^verbatim>\<open>JSON.stringify\<close> throws on an object that holds a BigInt,
  \<^verbatim>\<open>JSON.parse\<close> on the text \<^verbatim>\<open>not json\<close>); the examples apply them to nothing else.
\<close>

definition sample_small :: jsval where
  "sample_small = JObj [(''model'', JStr ''x'')]"

definition sample_big :: jsval where
  "sample_big = JArr [JStr (replicate 1200 CHR ''a'')]"

definition sample_bigint :: jsval where
  "sample_bigint = JObj [(''n'', JBigInt 1)]"

definition sample_stringify :: stringify where
  \<open>sample_stringify v indent =
     (if v = sample_small then
        Some (if indent = 0 then ''{"model":"x"}''
              else ''{'' @ [CHR 0x0A] @ ''  "model": "x"'' @ [CHR 0x0A] @ ''}'')
      else if v = sample_big then
        Some (if indent = 0 then ''["'' @ replicate 1200 CHR ''a'' @ ''"]''
              else ''['' @ [CHR 0x0A] @ ''  "'' @ replicate 1200 CHR ''a'' @ ''"'' @ [CHR 0x0A] @ '']'')
      else if v = JObj [(''model'', JStr ''claude-3-from-A'')] then
        Some (if indent = 0 then ''{"model":"claude-3-from-A"}''
              else ''{'' @ [CHR 0x0A] @ ''  "model": "claude-3-from-A"'' @ [CHR 0x0A] @ ''}'')
      else if v = JObj [(''model'', JStr ''claude-3-from-B'')] then
        Some (if indent = 0 then ''{"model":"claude-3-from-B"}''
              else ''{'' @ [CHR 0x0A] @ ''  "model": "claude-3-from-B"'' @ [CHR 0x0A] @ ''}'')
      else None)\<close>

definition sample_parse :: json_parse where
  \<open>sample_parse s =
     (if s = ''{"model":"claude-3-from-A"}'' then Some (JObj [(''model'', JStr ''claude-3-from-A'')])
      else if s = ''{"model":"claude-3-from-B"}'' then Some (JObj [(''model'', JStr ''claude-3-from-B'')])
      else None)\<close>

definition sample_hostname :: url_hostname where
  "sample_hostname u =
     (if u = ''https://api.anthropic.com/v1/messages'' then Some ''api.anthropic.com''
      else None)"

definition sample_env :: env where
  "sample_env = \<lparr>REQUEST_LOG = None, now = 1000, write_ok = True\<rparr>"

definition sample_request :: request where
  "sample_request = \<lparr>req_method = ''POST'', req_url = ''/v1/messages'',
                      req_headers = [(''content-type'', JStr ''application/json'')],
                      req_body = sample_small\<rparr>"


text \<open>
  A fresh logger after one inbound request \<open>r1\<close>; the same after the routing stage has
  reported; and a logger of capacity two that holds the requests \<open>a\<close> and \<open>b\<close>, both
  created at time 5, \<open>a\<close> already completed.
\<close>

definition sample_world :: world where
  "sample_world = logRequest sample_stringify sample_env ''r1'' sample_request new_world"

definition sample_routed :: world where
  "sample_routed = logRouting sample_env ''r1'' 42 ''claude-3'' ''default'' sample_world"

definition sample_full :: world where
  "sample_full =
     logResponse sample_stringify (sample_env\<lparr>now := 7\<rparr>) ''a'' 200 [] JNull 5
       (logRequest sample_stringify (sample_env\<lparr>now := 5\<rparr>) ''b'' sample_request
         (logRequest sample_stringify (sample_env\<lparr>now := 5\<rparr>) ''a'' sample_request
           (new_world\<lparr>maxLogs := 2\<rparr>)))"

text \<open>
  An intercepted provider call made while \<open>r1\<close> is the armed id; and, for the
  correlation context, a store with the records \<open>A\<close> and \<open>B\<close> of two inbound requests
  that are served at the same time, with one interleaving of their callbacks: both
  \<^verbatim>\<open>preHandler\<close> hooks run, then the unit of work of \<open>B\<close> calls the provider, then the
  unit of work of \<open>A\<close> does.
\<close>

definition sample_ir :: InterceptedRequest where
  "sample_ir =
     \<lparr>ir_requestId = Some ''r1'', ir_startTime = 1000,
      ir_url = ''https://api.anthropic.com/v1/messages'', ir_method = ''POST'',
      ir_headers = [(''x-api-key'', JStr ''sk-1'')], ir_body = None,
      ir_provider = ''anthropic''\<rparr>"

definition sample_two :: world where
  "sample_two =
     logRequest sample_stringify sample_env ''B'' sample_request
       (logRequest sample_stringify sample_env ''A'' sample_request new_world)"

definition sample_trace :: "(env \<times> event) list" where
  \<open>sample_trace =
     [(sample_env, PreHandler ''/v1/messages'' (Some ''A'')),
      (sample_env, PreHandler ''/v1/messages'' (Some ''B'')),
      (sample_env, ProviderCall ''B'' ''https://api.anthropic.com/v1/messages'' ''POST'' []
                     (Some ''{"model":"claude-3-from-B"}'')),
      (sample_env, ProviderCall ''A'' ''https://api.anthropic.com/v1/messages'' ''POST'' []
                     (Some ''{"model":"claude-3-from-A"}''))]\<close>

section \<open>Properties of the sanitizer\<close>

subsection \<open>Auxiliary facts\<close>

lemma sanitizeBody_string:
  "sanitizeBody S (JStr s) = (if length s > 1000 then JStr (take 1000 s @ TRUNCATED) else JStr s)"
  by (simp add: sanitizeBody_def)

lemma sanitizeBody_object:
  assumes "typeof b = TObject" and "b \<noteq> JNull"
  shows "sanitizeBody S b =
     (case S b 0 of
        None \<Rightarrow> JStr UNPARSEABLE
      | Some str \<Rightarrow>
          if length str > 1000 then
            (case S b 2 of None \<Rightarrow> JStr UNPARSEABLE | Some p \<Rightarrow> JStr (take 1000 p @ TRUNCATED))
          else b)"
  using assms by (cases b) (auto simp add: sanitizeBody_def split: option.splits)

lemma truthy_get_prop_key: "truthy (get_prop h k) \<Longrightarrow> k \<in> fst ` set h"
  by (cases "map_of h k") (auto simp add: get_prop_def dest: map_of_SomeD intro: rev_image_eqI)

lemma keys_set_prop: "truthy (get_prop h k) \<Longrightarrow> map fst (set_prop k v h) = map fst h"
  by (simp add: set_prop_def update_keys truthy_get_prop_key)

lemma get_set_prop: "get_prop (set_prop k v h) k' = (if k' = k then v else get_prop h k')"
  by (simp add: get_prop_def set_prop_def update_conv')

lemma set_prop_same: "get_prop h k = v \<Longrightarrow> truthy v \<Longrightarrow> set_prop k v h = h"
  by (cases "map_of h k") (simp_all add: get_prop_def set_prop_def update_triv)

lemma sanitizeHeaders_idem: "sanitizeHeaders (sanitizeHeaders h) = sanitizeHeaders h"
  by (simp add: sanitizeHeaders_def Let_def get_set_prop set_prop_same REDACTED_def)

lemma sanitizeBody_idem:
  assumes "\<And>s p. S b 0 = Some s \<Longrightarrow> S b 2 = Some p \<Longrightarrow> length s \<le> length p"
  shows "sanitizeBody S (sanitizeBody S b) = sanitizeBody S b"
proof (cases "typeof b = TObject \<and> b \<noteq> JNull")
  case False
  then show ?thesis
    by (cases b) (simp_all add: sanitizeBody_def TRUNCATED_def)
next
  case True
  note obj = sanitizeBody_object [of b S]
  show ?thesis
  proof (cases "S b 0")
    case None
    with True show ?thesis
      by (simp add: obj sanitizeBody_string UNPARSEABLE_def)
  next
    case (Some s)
    show ?thesis
    proof (cases "length s > 1000")
      case False
      with True Some show ?thesis
        by (simp add: obj)
    next
      case long: True
      show ?thesis
      proof (cases "S b 2")
        case None
        with True Some long show ?thesis
          by (simp add: obj sanitizeBody_string UNPARSEABLE_def)
      next
        case (Some p)
        with assms \<open>S b 0 = Some s\<close> long have "1000 \<le> length p" by fastforce
        with True Some \<open>S b 0 = Some s\<close> long show ?thesis
          by (simp add: obj sanitizeBody_string TRUNCATED_def)
      qed
    qed
  qed
qed

lemma lower_fixed:
  "toLowerCase ''authorization'' = ''authorization''" "toLowerCase ''x-api-key'' = ''x-api-key''"
  by (simp_all add: toLowerCase_def lower_char_def)

subsection \<open>Falsy bodies\<close>

text \<open>
  Claim C10. \<^const>\<open>sanitizeBody\<close> returns every falsy body as it is: \<^verbatim>\<open>null\<close>,
  \<^verbatim>\<open>undefined\<close>, the empty string, \<^verbatim>\<open>0\<close> and \<^verbatim>\<open>false\<close> (and \<^verbatim>\<open>NaN\<close> and \<^verbatim>\<open>0n\<close>). The
  serialiser is not consulted: the equation holds for every \<open>S\<close>, also for one that always
  fails, so neither the truncation marker nor the unparseable marker can appear.
\<close>

theorem sanitizeBody_falsy_unchanged:
  "\<not> truthy b \<Longrightarrow> sanitizeBody S b = b"
  by (simp add: sanitizeBody_def)

theorem sanitizeBody_falsy_unchanged_witness:
  "sanitizeBody (\<lambda>v n. None) JNull = JNull
   \<and> sanitizeBody (\<lambda>v n. None) JUndefined = JUndefined
   \<and> sanitizeBody (\<lambda>v n. None) (JStr []) = JStr []
   \<and> sanitizeBody (\<lambda>v n. None) (JNum 0) = JNum 0
   \<and> sanitizeBody (\<lambda>v n. None) (JBool False) = JBool False"
  using sanitizeBody_falsy_unchanged [of JNull "\<lambda>v n. None"]
    sanitizeBody_falsy_unchanged [of JUndefined "\<lambda>v n. None"]
    sanitizeBody_falsy_unchanged [of "JStr []" "\<lambda>v n. None"]
    sanitizeBody_falsy_unchanged [of "JNum 0" "\<lambda>v n. None"]
    sanitizeBody_falsy_unchanged [of "JBool False" "\<lambda>v n. None"]
  by simp

subsection \<open>The threshold\<close>

text \<open>
  Claim C8. A string of at most 1000 code units is returned as it is. A longer string
  becomes its first 1000 code units followed by the truncation marker, 1015 code units in
  all. A structured body (an array or an object) is serialised: if that fails the result
  is the unparseable marker; if the compact serialisation has at most 1000 code units the
  body is returned as it is; if it has more, the result is the first 1000 code units of
  the indented serialisation followed by the truncation marker (or the unparseable marker
  if the indented serialisation fails), at most 1015 code units.
\<close>

theorem sanitizeBody_threshold:
  "(length s \<le> 1000 \<longrightarrow> sanitizeBody S (JStr s) = JStr s)
   \<and> (length s > 1000 \<longrightarrow>
        sanitizeBody S (JStr s) = JStr (take 1000 s @ TRUNCATED)
        \<and> suffix TRUNCATED (take 1000 s @ TRUNCATED)
        \<and> length (take 1000 s @ TRUNCATED) = 1015)
   \<and> (typeof b = TObject \<and> b \<noteq> JNull \<longrightarrow>
        (S b 0 = None \<longrightarrow> sanitizeBody S b = JStr UNPARSEABLE)
        \<and> (\<forall>str. S b 0 = Some str \<and> length str \<le> 1000 \<longrightarrow> sanitizeBody S b = b)
        \<and> (\<forall>str. S b 0 = Some str \<and> length str > 1000 \<longrightarrow>
              (S b 2 = None \<longrightarrow> sanitizeBody S b = JStr UNPARSEABLE)
              \<and> (\<forall>p. S b 2 = Some p \<longrightarrow>
                    sanitizeBody S b = JStr (take 1000 p @ TRUNCATED)
                    \<and> suffix TRUNCATED (take 1000 p @ TRUNCATED)
                    \<and> length (take 1000 p @ TRUNCATED) \<le> 1015)))"
proof -
  have len: "length (take 1000 t @ TRUNCATED) \<le> 1015" for t
    by (simp add: TRUNCATED_def)
  have len_eq: "1000 < length s \<Longrightarrow> length (take 1000 s @ TRUNCATED) = 1015"
    by (simp add: TRUNCATED_def)
  have suf: "suffix TRUNCATED (take 1000 t @ TRUNCATED)" for t
    by (simp add: suffix_def)
  have str: "sanitizeBody S (JStr s) =
      (if length s > 1000 then JStr (take 1000 s @ TRUNCATED) else JStr s)"
    by (rule sanitizeBody_string)
  have obj: "typeof b = TObject \<and> b \<noteq> JNull \<Longrightarrow> sanitizeBody S b =
     (case S b 0 of
        None \<Rightarrow> JStr UNPARSEABLE
      | Some str \<Rightarrow>
          if length str > 1000 then
            (case S b 2 of None \<Rightarrow> JStr UNPARSEABLE | Some p \<Rightarrow> JStr (take 1000 p @ TRUNCATED))
          else b)"
    by (simp add: sanitizeBody_object)
  show ?thesis
    using len len_eq suf by (auto simp add: str obj)
qed

theorem sanitizeBody_threshold_witness:
  "sanitizeBody sample_stringify (JStr ''hello'') = JStr ''hello''
   \<and> sanitizeBody sample_stringify (JStr (replicate 1001 CHR ''x''))
       = JStr (replicate 1000 CHR ''x'' @ TRUNCATED)
   \<and> sanitizeBody sample_stringify sample_bigint = JStr UNPARSEABLE
   \<and> sanitizeBody sample_stringify sample_small = sample_small
   \<and> sanitizeBody sample_stringify sample_big
       = JStr (take 1000 (''['' @ [CHR 0x0A] @ ''  '' @ [CHR 0x22] @ replicate 1200 CHR ''a'')
               @ TRUNCATED)"
  using sanitizeBody_threshold [of "''hello''" sample_stringify sample_bigint]
    sanitizeBody_threshold [of "replicate 1001 CHR ''x''" sample_stringify sample_small]
    sanitizeBody_threshold [of "[]" sample_stringify sample_big]
  by (simp add: sample_stringify_def sample_small_def sample_big_def sample_bigint_def)

subsection \<open>Idempotence\<close>

text \<open>
  Claim C9. Applying \<^const>\<open>sanitizeBody\<close> twice gives what applying it once gives, and
  the same holds for \<^const>\<open>sanitizeHeaders\<close>. For a string body (a truncated one with its
  marker included) and for headers nothing is assumed. For any other body the platform's
  serialiser enters, and the one fact used about it is that indenting does not shorten
  its output: the indented serialisation of \<open>b\<close> is at least as long as the compact one.
\<close>

theorem sanitizers_idempotent:
  "((\<forall>s p. S b 0 = Some s \<and> S b 2 = Some p \<longrightarrow> length s \<le> length p)
      \<longrightarrow> sanitizeBody S (sanitizeBody S b) = sanitizeBody S b)
   \<and> sanitizeBody S (sanitizeBody S (JStr t)) = sanitizeBody S (JStr t)
   \<and> sanitizeHeaders (sanitizeHeaders h) = sanitizeHeaders h"
proof (intro conjI impI)
  assume "\<forall>s p. S b 0 = Some s \<and> S b 2 = Some p \<longrightarrow> length s \<le> length p"
  then show "sanitizeBody S (sanitizeBody S b) = sanitizeBody S b"
    by (intro sanitizeBody_idem) blast
next
  show "sanitizeBody S (sanitizeBody S (JStr t)) = sanitizeBody S (JStr t)"
    by (simp add: sanitizeBody_string TRUNCATED_def)
next
  show "sanitizeHeaders (sanitizeHeaders h) = sanitizeHeaders h"
    by (rule sanitizeHeaders_idem)
qed

theorem sanitizers_idempotent_witness:
  "map_option length (sample_stringify sample_big 0) = Some 1204
   \<and> map_option length (sample_stringify sample_big 2) = Some 1208
   \<and> sanitizeBody sample_stringify (sanitizeBody sample_stringify sample_big)
       = sanitizeBody sample_stringify sample_big
   \<and> sanitizeBody sample_stringify sample_big \<noteq> sample_big
   \<and> sanitizeHeaders (sanitizeHeaders [(''authorization'', JStr ''Bearer sk-1'')])
       = sanitizeHeaders [(''authorization'', JStr ''Bearer sk-1'')]"
proof -
  have c: "map_option length (sample_stringify sample_big 0) = Some 1204"
    and p: "map_option length (sample_stringify sample_big 2) = Some 1208"
    by (simp_all add: sample_stringify_def sample_big_def sample_small_def)
  then have h: "\<forall>s p. sample_stringify sample_big 0 = Some s \<and> sample_stringify sample_big 2 = Some p
        \<longrightarrow> length s \<le> length p"
    by auto
  have "sanitizeBody sample_stringify sample_big \<noteq> sample_big"
    by (simp add: sanitizeBody_def sample_stringify_def sample_big_def sample_small_def)
  with c p h
    sanitizers_idempotent [of sample_stringify sample_big "[]"
      "[(''authorization'', JStr ''Bearer sk-1'')]"]
  show ?thesis
    by blast
qed

subsection \<open>Header redaction\<close>

text \<open>
  Claim C3, as stated, fails: the two names are looked up as they are spelt, in lower
  case, and a value is replaced only when it is truthy. On the headers below the key
  \<open>Authorization\<close>, which matches \<open>authorization\<close> when case is ignored, keeps its
  value, and so does the key \<open>x-api-key\<close>, whose value is the empty string: the result
  is the input.
\<close>

theorem sanitizeHeaders_counterexample:
  "toLowerCase ''Authorization'' = ''authorization''
   \<and> sanitizeHeaders [(''Authorization'', JStr ''Bearer sk-1''), (''x-api-key'', JStr '''')]
       = [(''Authorization'', JStr ''Bearer sk-1''), (''x-api-key'', JStr '''')]
   \<and> JStr ''Bearer sk-1'' \<noteq> JStr REDACTED \<and> JStr '''' \<noteq> JStr REDACTED"
  by (simp add: toLowerCase_def lower_char_def sanitizeHeaders_def get_prop_def set_prop_def
      REDACTED_def)

text \<open>
  Claim C3, amended. For every header object: a key spelt exactly \<open>authorization\<close> or
  \<open>x-api-key\<close> whose value is truthy is mapped to the redaction marker; such a key whose
  value is falsy keeps it; every key that matches neither name, case ignored, keeps its
  value; and the keys and their order are those of the input.
\<close>

theorem sanitizeHeaders_exact_names:
  "(k \<in> sensitive_names \<and> truthy (get_prop h k)
      \<longrightarrow> map_of (sanitizeHeaders h) k = Some (JStr REDACTED))
   \<and> (k \<in> sensitive_names \<and> \<not> truthy (get_prop h k)
      \<longrightarrow> map_of (sanitizeHeaders h) k = map_of h k)
   \<and> (toLowerCase k \<notin> sensitive_names \<longrightarrow> map_of (sanitizeHeaders h) k = map_of h k)
   \<and> map fst (sanitizeHeaders h) = map fst h"
proof -
  have "k \<noteq> ''authorization'' \<and> k \<noteq> ''x-api-key''" if "toLowerCase k \<notin> sensitive_names"
    using that lower_fixed by (auto simp add: sensitive_names_def)
  moreover have "map fst (sanitizeHeaders h) = map fst h"
    by (simp add: sanitizeHeaders_def Let_def keys_set_prop get_set_prop)
  ultimately show ?thesis
    by (auto simp add: sanitizeHeaders_def Let_def get_prop_def set_prop_def update_conv'
        sensitive_names_def)
qed

theorem sanitizeHeaders_exact_names_witness:
  "map_of (sanitizeHeaders [(''authorization'', JStr ''Bearer sk-1''), (''x-api-key'', JStr ''''),
                            (''content-type'', JStr ''application/json'')]) ''authorization''
     = Some (JStr REDACTED)
   \<and> map_of (sanitizeHeaders [(''authorization'', JStr ''Bearer sk-1''), (''x-api-key'', JStr ''''),
                            (''content-type'', JStr ''application/json'')]) ''x-api-key''
     = Some (JStr '''')
   \<and> map_of (sanitizeHeaders [(''authorization'', JStr ''Bearer sk-1''), (''x-api-key'', JStr ''''),
                            (''content-type'', JStr ''application/json'')]) ''content-type''
     = Some (JStr ''application/json'')"
  using
    sanitizeHeaders_exact_names [of "''authorization''"
      "[(''authorization'', JStr ''Bearer sk-1''), (''x-api-key'', JStr ''''),
        (''content-type'', JStr ''application/json'')]"]
    sanitizeHeaders_exact_names [of "''x-api-key''"
      "[(''authorization'', JStr ''Bearer sk-1''), (''x-api-key'', JStr ''''),
        (''content-type'', JStr ''application/json'')]"]
    sanitizeHeaders_exact_names [of "''content-type''"
      "[(''authorization'', JStr ''Bearer sk-1''), (''x-api-key'', JStr ''''),
        (''content-type'', JStr ''application/json'')]"]
  by (simp add: sensitive_names_def get_prop_def toLowerCase_def lower_char_def)

section \<open>Properties of the record store and the persistence writer\<close>

subsection \<open>The sample stores\<close>

lemma sample_world_eq:
  "sample_world =
     new_world\<lparr>logs := [(''r1'', new_entry sample_stringify sample_env ''r1'' sample_request)]\<rparr>"
  by (simp add: sample_world_def logRequest_def logging_disabled_def sample_env_def
      new_world_def cleanup_def)

lemma sample_world_logs:
  "logs sample_world = [(''r1'', new_entry sample_stringify sample_env ''r1'' sample_request)]"
  by (simp add: sample_world_eq)

lemma sample_routed_eq:
  "sample_routed =
     new_world\<lparr>logs := [(''r1'', (new_entry sample_stringify sample_env ''r1'' sample_request)
          \<lparr>routing := \<lparr>tokenCount = 42, selectedModel = ''claude-3'',
                       routingReason = ''default''\<rparr>\<rparr>)]\<rparr>"
  by (simp add: sample_routed_def logRouting_def sample_world_eq logging_disabled_def
      sample_env_def)

lemma sample_full_eq:
  "sample_full =
     \<lparr>logs = [(''a'', (new_entry sample_stringify (sample_env\<lparr>now := 5\<rparr>) ''a'' sample_request)
                  \<lparr>response := Some \<lparr>headers = [], body = JNull, status = 200, duration = 2\<rparr>\<rparr>),
              (''b'', new_entry sample_stringify (sample_env\<lparr>now := 5\<rparr>) ''b'' sample_request)],
      maxLogs = 2,
      log_file = [(new_entry sample_stringify (sample_env\<lparr>now := 5\<rparr>) ''a'' sample_request)
                  \<lparr>response := Some \<lparr>headers = [], body = JNull, status = 200, duration = 2\<rparr>\<rparr>],
      console = [], currentRequestId = None, wire = []\<rparr>"
  by (simp add: sample_full_def logRequest_def logResponse_def writeToFile_def Let_def
      logging_disabled_def sample_env_def new_world_def cleanup_def
      sanitizeHeaders_def get_prop_def sanitizeBody_def)

subsection \<open>Mutating an unknown id\<close>

text \<open>
  Claim C5. When no record has the id \<open>i\<close>, each of the five stage-mutating calls
  returns normally (\<^const>\<open>logError\<close> does so even for a \<^verbatim>\<open>null\<close> error, which it would
  otherwise dereference) and returns the state it was given: the store, the log file and
  the console are what they were, so no record is created and nothing is persisted.
\<close>

theorem unknown_id_mutation_ignored:
  assumes "getLogById i w = None"
  shows "logRouting e i n m r w = w
    \<and> logTransformedRequest S e i u m hs b p w = w
    \<and> logProviderResponse S e i st hs b t0 w = w
    \<and> logResponse S e i st hs b t0 w = w
    \<and> logError e i err w = Inr w"
  using assms
  by (simp add: getLogById_def logRouting_def logTransformedRequest_def logProviderResponse_def
      logResponse_def logError_def)

theorem unknown_id_mutation_ignored_witness:
  "getLogById ''r2'' sample_world = None
   \<and> logRouting sample_env ''r2'' 42 ''claude-3'' ''default'' sample_world = sample_world
   \<and> logTransformedRequest sample_stringify sample_env ''r2'' ''https://api.anthropic.com/v1/messages''
        ''POST'' [] sample_small ''anthropic'' sample_world = sample_world
   \<and> logProviderResponse sample_stringify sample_env ''r2'' 200 [] sample_small 990 sample_world
        = sample_world
   \<and> logResponse sample_stringify sample_env ''r2'' 200 [] sample_small 990 sample_world
        = sample_world
   \<and> logError sample_env ''r2'' None sample_world = Inr sample_world"
proof -
  have h: "getLogById ''r2'' sample_world = None"
    by (simp add: getLogById_def sample_world_logs)
  show ?thesis
    using h unknown_id_mutation_ignored [OF h] by simp
qed

subsection \<open>Creating a record whose id exists\<close>

lemma cleanup_within: "length (logs w) \<le> maxLogs w \<Longrightarrow> cleanup w = w"
  by (simp add: cleanup_def)

lemma length_update_present:
  "map_of al k = Some v \<Longrightarrow> length (AList.update k v' al) = length al"
  by (induction al) (auto)

text \<open>
  Claim C6, as stated, fails: \<^const>\<open>logRequest\<close> does not look for an existing record.
  The record \<open>r1\<close> of the sample store carries the routing decision with 42 tokens;
  after a second \<^const>\<open>logRequest\<close> with the same id its routing is the default one.
\<close>

theorem duplicate_create_counterexample:
  "map_option (\<lambda>r. tokenCount (routing r)) (getLogById ''r1'' sample_routed) = Some 42
   \<and> map_option (\<lambda>r. tokenCount (routing r))
        (getLogById ''r1'' (logRequest sample_stringify sample_env ''r1'' sample_request sample_routed))
       = Some 0"
  by (simp add: getLogById_def sample_routed_eq new_world_def
      logRequest_def logging_disabled_def sample_env_def cleanup_def new_entry_def)

text \<open>
  Claim C6, amended. If \<^const>\<open>logRequest\<close> is called with an id that a record of the
  store has (the store being within its bound), the call succeeds and puts a fresh record
  with default routing and no later stage in the place of the existing one; the ids and
  their order, the other records and everything else are unchanged. With
  \<^verbatim>\<open>REQUEST_LOG\<close> set to \<^verbatim>\<open>false\<close> the call does nothing.
\<close>

theorem duplicate_create_replaces:
  assumes "getLogById i w = Some old" and "length (logs w) \<le> maxLogs w"
  shows "(\<not> logging_disabled e \<longrightarrow>
           logRequest S e i req w = w\<lparr>logs := AList.update i (new_entry S e i req) (logs w)\<rparr>
           \<and> getLogById i (logRequest S e i req w) = Some (new_entry S e i req)
           \<and> map fst (logs (logRequest S e i req w)) = map fst (logs w))
         \<and> (logging_disabled e \<longrightarrow> logRequest S e i req w = w)"
proof -
  have len: "length (AList.update i (new_entry S e i req) (logs w)) = length (logs w)"
    using assms(1) by (simp add: getLogById_def length_update_present)
  have keys: "map fst (AList.update i (new_entry S e i req) (logs w)) = map fst (logs w)"
    using assms(1) by (auto simp add: getLogById_def update_keys dest: map_of_SomeD intro: rev_image_eqI)
  show ?thesis
    using assms(2) len keys
    by (simp add: logRequest_def Let_def cleanup_within getLogById_def update_conv')
qed

theorem duplicate_create_replaces_witness:
  "getLogById ''r1'' sample_routed
     = Some ((new_entry sample_stringify sample_env ''r1'' sample_request)
          \<lparr>routing := \<lparr>tokenCount = 42, selectedModel = ''claude-3'', routingReason = ''default''\<rparr>\<rparr>)
   \<and> length (logs sample_routed) \<le> maxLogs sample_routed
   \<and> \<not> logging_disabled sample_env
   \<and> getLogById ''r1'' (logRequest sample_stringify sample_env ''r1'' sample_request sample_routed)
       = Some (new_entry sample_stringify sample_env ''r1'' sample_request)
   \<and> logging_disabled (sample_env\<lparr>REQUEST_LOG := Some ''false''\<rparr>)
   \<and> logRequest sample_stringify (sample_env\<lparr>REQUEST_LOG := Some ''false''\<rparr>) ''r1'' sample_request
        sample_routed = sample_routed"
proof -
  have a: "getLogById ''r1'' sample_routed
     = Some ((new_entry sample_stringify sample_env ''r1'' sample_request)
          \<lparr>routing := \<lparr>tokenCount = 42, selectedModel = ''claude-3'', routingReason = ''default''\<rparr>\<rparr>)"
    by (simp add: getLogById_def sample_routed_eq)
  have b: "length (logs sample_routed) \<le> maxLogs sample_routed"
    by (simp add: sample_routed_eq new_world_def)
  have c: "\<not> logging_disabled sample_env"
    "logging_disabled (sample_env\<lparr>REQUEST_LOG := Some ''false''\<rparr>)"
    by (simp_all add: logging_disabled_def sample_env_def)
  show ?thesis
    using a b c duplicate_create_replaces [OF a b, of sample_env sample_stringify sample_request]
      duplicate_create_replaces [OF a b, of "sample_env\<lparr>REQUEST_LOG := Some ''false''\<rparr>"
        sample_stringify sample_request]
    by blast
qed

subsection \<open>Persistence on completion\<close>

lemma writeToFile_logs [simp]: "logs (writeToFile e entry w) = logs w"
  by (simp add: writeToFile_def)

lemma writeToFile_file:
  "log_file (writeToFile e entry w) = (if write_ok e then log_file w @ [entry] else log_file w)"
  by (simp add: writeToFile_def)

lemma complete_step:
  assumes "getLogById i w \<noteq> None" and "completes i c"
  shows "\<exists>w'. apply_op S e c w = Inr w'
           \<and> getLogById i w' \<noteq> None
           \<and> log_file w' = (if write_ok e then log_file w @ [the (getLogById i w')] else log_file w)"
proof (cases c)
  case (LogResponse j st hs b t0)
  with assms show ?thesis
    by (auto simp add: logResponse_def getLogById_def Let_def writeToFile_file update_conv')
next
  case (LogError j err)
  with assms show ?thesis
    by (auto simp add: logError_def getLogById_def Let_def writeToFile_file update_conv')
qed (use assms in simp_all)

lemma run_completing:
  assumes "getLogById i w \<noteq> None" and "\<forall>c \<in> set cs. completes i (snd c)"
  shows "length (log_file (run S cs w))
           = length (log_file w) + length (filter (\<lambda>c. write_ok (fst c)) cs)
         \<and> getLogById i (run S cs w) \<noteq> None"
  using assms
proof (induction cs arbitrary: w)
  case Nil
  then show ?case by simp
next
  case (Cons c cs)
  from Cons.prems have "completes i (snd c)" by simp
  with Cons.prems(1) complete_step [of i w "snd c" S "fst c"]
  obtain w' where w': "apply_op S (fst c) (snd c) w = Inr w'" "getLogById i w' \<noteq> None"
    "log_file w' = (if write_ok (fst c) then log_file w @ [the (getLogById i w')] else log_file w)"
    by blast
  from Cons.prems have "\<forall>c \<in> set cs. completes i (snd c)" by simp
  with Cons.IH [OF w'(2)] have
    "length (log_file (run S cs w'))
           = length (log_file w') + length (filter (\<lambda>c. write_ok (fst c)) cs)
         \<and> getLogById i (run S cs w') \<noteq> None"
    by blast
  with w' show ?case by simp
qed

lemma run_append: "run S (xs @ ys) w = run S ys (run S xs w)"
  by (induction xs arbitrary: w) simp_all

lemma logResponse_record:
  "getLogById i w \<noteq> None \<Longrightarrow>
     map_option response (getLogById i (logResponse S e i st hs b t0 w))
       = Some (Some \<lparr>headers = sanitizeHeaders hs, body = sanitizeBody S b,
                      status = st, duration = now e - t0\<rparr>)"
  by (auto simp add: logResponse_def getLogById_def Let_def update_conv')

lemma logError_record:
  "getLogById i w \<noteq> None \<Longrightarrow>
     \<exists>w'. logError e i (Some er) w = Inr w'
       \<and> map_option error (getLogById i w') = Some (Some er)"
  by (auto simp add: logError_def getLogById_def Let_def update_conv')

text \<open>
  Claim C2, as stated, fails: nothing records that an entry has been written, and both
  completing calls end in \<^const>\<open>writeToFile\<close>. After \<^const>\<open>logResponse\<close> and then
  \<^const>\<open>logError\<close> on the record \<open>r1\<close> the file has two lines.
\<close>

theorem persist_once_counterexample:
  "length (log_file sample_world) = 0
   \<and> length (log_file (run sample_stringify
        [(sample_env, LogResponse ''r1'' 200 [] sample_small 990),
         (sample_env, LogError ''r1'' (Some \<lparr>message = ''boom'', stack = None\<rparr>))]
        sample_world)) = 2"
  by (simp add: sample_world_eq new_world_def logResponse_def logError_def writeToFile_def Let_def
      sample_env_def)

text \<open>
  Claim C2, amended. For a record of the store, every completing call on its id
  (\<^const>\<open>logResponse\<close>, or \<^const>\<open>logError\<close> with an error object) appends one line,
  unless the write fails: after any sequence of such calls, in any order, the file has
  grown by the number of calls whose write succeeded. Each call also updates the record
  in memory, the last one winning: after a further \<^const>\<open>logResponse\<close> the record holds
  that response, after a further \<^const>\<open>logError\<close> it holds that error.
\<close>

theorem persists_on_every_completion:
  assumes "getLogById i w \<noteq> None" and "\<forall>c \<in> set cs. completes i (snd c)"
  shows "length (log_file (run S cs w))
           = length (log_file w) + length (filter (\<lambda>c. write_ok (fst c)) cs)
    \<and> map_option response
         (getLogById i (run S (cs @ [(e, LogResponse i st hs b t0)]) w))
        = Some (Some \<lparr>headers = sanitizeHeaders hs, body = sanitizeBody S b,
                       status = st, duration = now e - t0\<rparr>)
    \<and> map_option error (getLogById i (run S (cs @ [(e, LogError i (Some er))]) w))
        = Some (Some er)"
proof -
  from run_completing [OF assms, of S]
  have n: "length (log_file (run S cs w))
           = length (log_file w) + length (filter (\<lambda>c. write_ok (fst c)) cs)"
    and k: "getLogById i (run S cs w) \<noteq> None"
    by simp_all
  from logError_record [OF k, of e er] obtain w' where
    "logError e i (Some er) (run S cs w) = Inr w'"
    "map_option error (getLogById i w') = Some (Some er)"
    by blast
  then have "map_option error (getLogById i (run S (cs @ [(e, LogError i (Some er))]) w))
        = Some (Some er)"
    by (simp add: run_append)
  with n logResponse_record [OF k, of S e st hs b t0] show ?thesis
    by (simp add: run_append)
qed

theorem persists_on_every_completion_witness:
  "getLogById ''r1'' sample_world \<noteq> None
   \<and> completes ''r1'' (LogResponse ''r1'' 200 [] sample_small 990)
   \<and> completes ''r1'' (LogError ''r1'' (Some \<lparr>message = ''boom'', stack = None\<rparr>))
   \<and> write_ok sample_env
   \<and> length (log_file (run sample_stringify
        [(sample_env, LogResponse ''r1'' 200 [] sample_small 990),
         (sample_env, LogError ''r1'' (Some \<lparr>message = ''boom'', stack = None\<rparr>)),
         (sample_env\<lparr>write_ok := False\<rparr>, LogResponse ''r1'' 500 [] JNull 990)]
        sample_world)) = length (log_file sample_world) + 2
   \<and> map_option error (getLogById ''r1'' (run sample_stringify
        [(sample_env, LogResponse ''r1'' 200 [] sample_small 990),
         (sample_env, LogError ''r1'' (Some \<lparr>message = ''boom'', stack = None\<rparr>))]
        sample_world)) = Some (Some \<lparr>message = ''boom'', stack = None\<rparr>)"
proof -
  have a: "getLogById ''r1'' sample_world \<noteq> None"
    by (simp add: getLogById_def sample_world_eq)
  have b: "\<forall>c \<in> set [(sample_env, LogResponse ''r1'' 200 [] sample_small 990),
         (sample_env, LogError ''r1'' (Some \<lparr>message = ''boom'', stack = None\<rparr>)),
         (sample_env\<lparr>write_ok := False\<rparr>, LogResponse ''r1'' 500 [] JNull 990)].
        completes ''r1'' (snd c)"
    by simp
  have b': "\<forall>c \<in> set [(sample_env, LogResponse ''r1'' 200 [] sample_small 990)].
        completes ''r1'' (snd c)"
    by simp
  have c: "write_ok sample_env"
    by (simp add: sample_env_def)
  show ?thesis
    using a c persists_on_every_completion [OF a b, of sample_stringify]
      persists_on_every_completion [OF a b', of sample_stringify sample_env _ _ _ _
        "\<lparr>message = ''boom'', stack = None\<rparr>"]
    by simp
qed

subsection \<open>The bound and the eviction order\<close>

lemma fold_delete_filter:
  "fold (\<lambda>a m. AList.delete (fst a) m) ds m = filter (\<lambda>p. fst p \<notin> fst ` set ds) m"
proof (induction ds arbitrary: m)
  case Nil
  then show ?case by simp
next
  case (Cons d ds)
  have "AList.delete (fst d) m = filter (\<lambda>p. fst p \<noteq> fst d) m"
    by (simp add: AList.delete_eq case_prod_unfold eq_commute)
  with Cons show ?case
    by (auto simp add: intro: filter_cong)
qed

lemma key_in_iff:
  assumes "distinct (map fst m)" and "set ds \<subseteq> set m" and "p \<in> set m"
  shows "fst p \<in> fst ` set ds \<longleftrightarrow> p \<in> set ds"
proof
  assume "fst p \<in> fst ` set ds"
  then obtain d where d: "d \<in> set ds" "fst d = fst p" by auto
  with assms have "d \<in> set m" by auto
  with assms(1,3) d(2) have "d = p"
    by (meson eq_key_imp_eq_value prod.expand distinct_map inj_onD)
  with d show "p \<in> set ds" by simp
qed auto

lemma fold_delete_distinct:
  assumes "distinct (map fst m)" and "set ds \<subseteq> set m"
  shows "fold (\<lambda>a m. AList.delete (fst a) m) ds m = filter (\<lambda>p. p \<notin> set ds) m"
  unfolding fold_delete_filter
  using key_in_iff [OF assms] by (intro filter_cong) auto

lemma comes_before_append:
  "a \<in> set us \<Longrightarrow> b \<in> set vs \<Longrightarrow> comes_before (us @ vs) a b"
  by (induction us) auto

lemma comes_before_filter:
  "comes_before xs a b \<Longrightarrow> P a \<Longrightarrow> P b \<Longrightarrow> comes_before (filter P xs) a b"
  by (induction xs) (auto split: if_splits)

lemma comes_before_mem: "comes_before xs a b \<Longrightarrow> a \<in> set xs \<and> b \<in> set xs"
  by (induction xs) (auto split: if_splits)

lemma comes_before_unfilter:
  "comes_before (filter P xs) a b \<Longrightarrow> comes_before xs a b"
proof (induction xs)
  case Nil
  then show ?case by simp
next
  case (Cons x xs)
  show ?case
  proof (cases "x = a")
    case True
    from Cons.prems have "a \<in> set (filter P (x # xs))"
      by (blast dest: comes_before_mem)
    then have "P a" by (simp only: set_filter mem_Collect_eq)
    with True Cons.prems show ?thesis by simp
  next
    case False
    with Cons show ?thesis by (simp split: if_splits)
  qed
qed

lemma sorted_take_drop:
  assumes "sorted (map f ys)" and "a \<in> set (take k ys)" and "b \<in> set (drop k ys)"
  shows "f a \<le> f b"
proof -
  have "sorted (map f (take k ys) @ map f (drop k ys))"
    using assms(1) by (simp flip: map_append)
  with assms(2,3) show ?thesis
    by (auto simp add: sorted_append)
qed

lemma stable_take_drop:
  assumes "a \<in> set (take k (sort_key f xs))" and "b \<in> set (drop k (sort_key f xs))"
    and "f a = f b"
  shows "comes_before xs a b"
proof -
  let ?ys = "sort_key f xs"
  have "comes_before (take k ?ys @ drop k ?ys) a b"
    using assms(1,2) by (rule comes_before_append)
  then have "comes_before ?ys a b" by simp
  then have "comes_before (filter (\<lambda>y. f y = f a) ?ys) a b"
    using assms(3) by (intro comes_before_filter) simp_all
  then have "comes_before (filter (\<lambda>y. f y = f a) xs) a b"
    by (simp add: sort_key_stable)
  then show ?thesis by (rule comes_before_unfilter)
qed

lemma length_filter_remove:
  assumes "distinct m" and "distinct ds" and "set ds \<subseteq> set m"
  shows "length (filter (\<lambda>p. p \<notin> set ds) m) = length m - length ds"
proof -
  have "length (filter (\<lambda>p. p \<notin> set ds) m) = card (set m - set ds)"
    using assms(1) by (simp add: distinct_length_filter Diff_eq Compl_eq Int_commute)
  also have "\<dots> = card (set m) - card (set ds)"
    using assms(3) by (simp add: card_Diff_subset)
  finally show ?thesis
    using assms(1,2) by (simp add: distinct_card)
qed

lemma cleanup_logs:
  "logs (cleanup w) =
     fold (\<lambda>a m. AList.delete (fst a) m) (evicted (maxLogs w) (logs w)) (logs w)"
  by (simp add: cleanup_def evicted_def Let_def)

lemma cleanup_maxLogs [simp]: "maxLogs (cleanup w) = maxLogs w"
  by (simp add: cleanup_def Let_def)

lemma evicted_subset: "set (evicted cap m) \<subseteq> set m"
  using set_take_subset [of "length m - cap" "sort_key (\<lambda>a. timestamp (snd a)) m"]
  by (simp add: evicted_def)

lemma evicted_distinct: "distinct m \<Longrightarrow> distinct (evicted cap m)"
  by (simp add: evicted_def)

lemma evicted_length: "length (evicted cap m) = length m - cap"
  by (simp add: evicted_def)

lemma cleanup_distinct_logs:
  assumes "distinct (map fst (logs w))"
  shows "logs (cleanup w) = filter (\<lambda>p. p \<notin> set (evicted (maxLogs w) (logs w))) (logs w)"
  unfolding cleanup_logs using assms evicted_subset by (rule fold_delete_distinct)

lemma cleanup_length:
  assumes "distinct (map fst (logs w))"
  shows "length (logs (cleanup w)) \<le> maxLogs w"
proof -
  have d: "distinct (logs w)"
    using assms by (simp add: distinct_map)
  have "length (logs (cleanup w)) = length (logs w) - length (evicted (maxLogs w) (logs w))"
    unfolding cleanup_distinct_logs [OF assms]
    using d evicted_distinct [OF d] evicted_subset by (rule length_filter_remove)
  then show ?thesis
    by (simp add: evicted_length)
qed

lemma evicted_oldest:
  assumes "a \<in> set (evicted cap m)" and "r \<in> set m" and "r \<notin> set (evicted cap m)"
  shows "timestamp (snd a) \<le> timestamp (snd r)
    \<and> (timestamp (snd a) = timestamp (snd r) \<longrightarrow> comes_before m a r)"
proof -
  let ?f = "\<lambda>a. timestamp (snd a)"
  let ?ys = "sort_key ?f m"
  let ?k = "length m - cap"
  have "r \<in> set (take ?k ?ys @ drop ?k ?ys)"
    using assms(2) by simp
  with assms(3) have r: "r \<in> set (drop ?k ?ys)"
    unfolding evicted_def set_append by blast
  from assms(1) have a: "a \<in> set (take ?k ?ys)"
    by (simp add: evicted_def)
  have "sorted (map ?f ?ys)"
    by (rule sorted_sort_key)
  then have "?f a \<le> ?f r"
    using a r by (rule sorted_take_drop)
  moreover have "comes_before m a r" if "?f a = ?f r"
    using a r that by (rule stable_take_drop)
  ultimately show ?thesis by blast
qed

lemma logRequest_logs:
  "\<not> logging_disabled e \<Longrightarrow>
     logRequest S e i req w = cleanup (w\<lparr>logs := after_set S e i req w\<rparr>)"
  by (simp add: logRequest_def after_set_def)

lemma after_set_distinct:
  "distinct (map fst (logs w)) \<Longrightarrow> distinct (map fst (after_set S e i req w))"
  by (simp add: after_set_def distinct_update)

lemma update_present_keys:
  "map_of al k = Some v \<Longrightarrow> map fst (AList.update k v' al) = map fst al"
  by (auto simp add: update_keys dest: map_of_SomeD intro: rev_image_eqI)

lemma apply_op_keys:
  assumes "apply_op S e c w = Inr w'" and "\<forall>i req. c \<noteq> LogRequest i req"
  shows "map fst (logs w') = map fst (logs w) \<and> maxLogs w' = maxLogs w"
proof (cases c)
  case (LogRequest i req)
  with assms(2) show ?thesis by simp
next
  case (LogRouting i n m r)
  with assms(1) show ?thesis
    by (auto simp add: logRouting_def update_present_keys split: option.splits)
next
  case (LogTransformedRequest i u m hs b p)
  with assms(1) show ?thesis
    by (auto simp add: logTransformedRequest_def update_present_keys split: option.splits)
next
  case (LogProviderResponse i st hs b t0)
  with assms(1) show ?thesis
    by (auto simp add: logProviderResponse_def update_present_keys split: option.splits)
next
  case (LogResponse i st hs b t0)
  with assms(1) show ?thesis
    by (auto simp add: logResponse_def Let_def writeToFile_def update_present_keys
        split: option.splits)
next
  case (LogError i err)
  with assms(1) show ?thesis
    by (auto simp add: logError_def Let_def writeToFile_def update_present_keys
        split: option.splits)
qed

lemma apply_op_store_ok:
  assumes "apply_op S e c w = Inr w'"
    and "distinct (map fst (logs w))" and "length (logs w) \<le> maxLogs w"
  shows "distinct (map fst (logs w')) \<and> length (logs w') \<le> maxLogs w' \<and> maxLogs w' = maxLogs w"
proof (cases "\<exists>i req. c = LogRequest i req")
  case False
  with assms(1) have k: "map fst (logs w') = map fst (logs w) \<and> maxLogs w' = maxLogs w"
    by (intro apply_op_keys) auto
  then have "length (logs w') = length (logs w)"
    by (metis length_map)
  with k assms(2,3) show ?thesis by simp
next
  case True
  then obtain i req where c: "c = LogRequest i req" by blast
  show ?thesis
  proof (cases "logging_disabled e")
    case True
    with c assms show ?thesis by (simp add: logRequest_def)
  next
    case False
    let ?w1 = "w\<lparr>logs := after_set S e i req w\<rparr>"
    have w': "w' = cleanup ?w1"
      using c assms(1) False by (simp add: logRequest_logs)
    have d1: "distinct (map fst (logs ?w1))"
      using assms(2) by (simp add: after_set_distinct)
    have "distinct (map fst (logs (cleanup ?w1)))"
      unfolding cleanup_distinct_logs [OF d1] using d1 by (simp add: distinct_map_filter)
    moreover have "length (logs (cleanup ?w1)) \<le> maxLogs ?w1"
      using d1 by (rule cleanup_length)
    ultimately show ?thesis
      using w' by simp
  qed
qed

lemma run_store_ok:
  assumes "distinct (map fst (logs w))" and "length (logs w) \<le> maxLogs w"
  shows "distinct (map fst (logs (run S cs w)))
    \<and> length (logs (run S cs w)) \<le> maxLogs (run S cs w)
    \<and> maxLogs (run S cs w) = maxLogs w"
  using assms
proof (induction cs arbitrary: w)
  case Nil
  then show ?case by simp
next
  case (Cons c cs)
  show ?case
  proof (cases "apply_op S (fst c) (snd c) w")
    case (Inl x)
    with Cons.IH [OF Cons.prems] show ?thesis by simp
  next
    case (Inr w')
    from apply_op_store_ok [OF Inr Cons.prems]
    have ok: "distinct (map fst (logs w'))" "length (logs w') \<le> maxLogs w'" "maxLogs w' = maxLogs w"
      by simp_all
    from Cons.IH [OF ok(1,2)] ok(3) Inr show ?thesis by simp
  qed
qed

text \<open>
  Claim C4. Whatever calls a fresh logger has served, its store holds at most 1000
  records. For a call of \<^const>\<open>logRequest\<close> on a store with distinct ids: afterwards the
  store holds at most \<^const>\<open>maxLogs\<close> records; the records removed are the first
  \<open>n - maxLogs\<close> of the \<open>n\<close> records present after the insertion, in the stable order
  by timestamp; every removed record is at most as recent as every retained one, and on
  equal timestamps it precedes the retained one in insertion order. No stage field of a
  record enters: a completed record is removed like any other.
\<close>

theorem store_bounded_oldest_evicted:
  "length (logs (run S cs new_world)) \<le> 1000
   \<and> (distinct (map fst (logs w)) \<and> \<not> logging_disabled e \<longrightarrow>
        length (logs (logRequest S e i req w)) \<le> maxLogs w
        \<and> logs (logRequest S e i req w)
            = filter (\<lambda>p. p \<notin> set (evicted (maxLogs w) (after_set S e i req w)))
                (after_set S e i req w)
        \<and> set (evicted (maxLogs w) (after_set S e i req w)) \<subseteq> set (after_set S e i req w)
        \<and> length (evicted (maxLogs w) (after_set S e i req w))
            = length (after_set S e i req w) - maxLogs w
        \<and> (\<forall>a \<in> set (evicted (maxLogs w) (after_set S e i req w)).
            \<forall>r \<in> set (logs (logRequest S e i req w)).
              timestamp (snd a) \<le> timestamp (snd r)
              \<and> (timestamp (snd a) = timestamp (snd r)
                   \<longrightarrow> comes_before (after_set S e i req w) a r)))"
proof (intro conjI impI)
  show "length (logs (run S cs new_world)) \<le> 1000"
    using run_store_ok [of new_world S cs] by (simp add: new_world_def)
next
  assume h: "distinct (map fst (logs w)) \<and> \<not> logging_disabled e"
  let ?m = "after_set S e i req w"
  let ?w1 = "w\<lparr>logs := ?m\<rparr>"
  have eq: "logRequest S e i req w = cleanup ?w1"
    using h by (simp add: logRequest_logs)
  have d1: "distinct (map fst (logs ?w1))"
    using h by (simp add: after_set_distinct)
  show "length (logs (logRequest S e i req w)) \<le> maxLogs w"
    unfolding eq using cleanup_length [OF d1] by simp
  show f: "logs (logRequest S e i req w) = filter (\<lambda>p. p \<notin> set (evicted (maxLogs w) ?m)) ?m"
    unfolding eq using cleanup_distinct_logs [OF d1] by simp
  show "set (evicted (maxLogs w) ?m) \<subseteq> set ?m"
    by (rule evicted_subset)
  show "length (evicted (maxLogs w) ?m) = length ?m - maxLogs w"
    by (rule evicted_length)
  show "\<forall>a \<in> set (evicted (maxLogs w) ?m). \<forall>r \<in> set (logs (logRequest S e i req w)).
          timestamp (snd a) \<le> timestamp (snd r)
          \<and> (timestamp (snd a) = timestamp (snd r) \<longrightarrow> comes_before ?m a r)"
    unfolding f by (auto dest: evicted_oldest)
qed

theorem store_bounded_oldest_evicted_witness:
  "distinct (map fst (logs sample_full))
   \<and> \<not> logging_disabled (sample_env\<lparr>now := 9\<rparr>)
   \<and> map (\<lambda>p. (fst p, timestamp (snd p), response (snd p) \<noteq> None)) (logs sample_full)
       = [(''a'', 5, True), (''b'', 5, False)]
   \<and> maxLogs sample_full = 2
   \<and> map fst (evicted (maxLogs sample_full)
        (after_set sample_stringify (sample_env\<lparr>now := 9\<rparr>) ''c'' sample_request sample_full))
       = [''a'']
   \<and> map (\<lambda>p. (fst p, timestamp (snd p)))
        (logs (logRequest sample_stringify (sample_env\<lparr>now := 9\<rparr>) ''c'' sample_request sample_full))
       = [(''b'', 5), (''c'', 9)]"
proof -
  let ?e = "sample_env\<lparr>now := 9\<rparr>"
  let ?m = "after_set sample_stringify ?e ''c'' sample_request sample_full"
  have d: "distinct (map fst (logs sample_full))"
    and n: "\<not> logging_disabled ?e"
    and l: "map (\<lambda>p. (fst p, timestamp (snd p), response (snd p) \<noteq> None)) (logs sample_full)
       = [(''a'', 5, True), (''b'', 5, False)]"
    and c: "maxLogs sample_full = 2"
    by (simp_all add: sample_full_eq logging_disabled_def sample_env_def new_entry_def)
  have m: "?m = logs sample_full @ [(''c'', new_entry sample_stringify ?e ''c'' sample_request)]"
    by (simp add: after_set_def sample_full_eq)
  have ev: "evicted (maxLogs sample_full) ?m = [hd (logs sample_full)]"
    unfolding m by (simp add: evicted_def sample_full_eq new_entry_def sample_env_def)
  have k: "map fst (evicted (maxLogs sample_full) ?m) = [''a'']"
    unfolding ev by (simp add: sample_full_eq)
  from d n store_bounded_oldest_evicted [of sample_stringify "[]" sample_full "?e" "''c''" sample_request]
  have "logs (logRequest sample_stringify ?e ''c'' sample_request sample_full)
          = filter (\<lambda>p. p \<notin> set (evicted (maxLogs sample_full) ?m)) ?m"
    by blast
  then have "map (\<lambda>p. (fst p, timestamp (snd p)))
        (logs (logRequest sample_stringify ?e ''c'' sample_request sample_full))
       = [(''b'', 5), (''c'', 9)]"
    unfolding ev unfolding m by (simp add: sample_full_eq new_entry_def sample_env_def)
  with d n l c k show ?thesis by blast
qed

section \<open>Properties of the interceptor and of the correlation context\<close>

subsection \<open>Bodies that are not JSON\<close>

text \<open>
  Claim C7, as stated, fails: \<^verbatim>\<open>JSON.parse\<close> is called inside the \<^verbatim>\<open>try\<close> block that
  also holds the call of the logger, so a text that does not parse skips that call. With
  the record \<open>r1\<close> in the store and \<open>r1\<close> as the id of the intercepted call, the text
  \<^verbatim>\<open>not json\<close> as request body leaves the store as it was, the record without a
  transformed request, and as response body leaves it without a provider response: the
  raw text is stored nowhere.
\<close>

theorem parse_failure_counterexample:
  "sample_parse ''not json'' = None
   \<and> getLogById ''r1'' sample_world \<noteq> None
   \<and> ir_requestId sample_ir = Some ''r1''
   \<and> logs (snd (req_end sample_stringify sample_parse sample_env sample_ir [] (Some ''not json'')
        sample_world)) = logs sample_world
   \<and> map_option transformedRequest (getLogById ''r1''
        (snd (req_end sample_stringify sample_parse sample_env sample_ir [] (Some ''not json'')
           sample_world))) = Some None
   \<and> map_option providerResponse (getLogById ''r1''
        (handleResponse_end sample_stringify sample_parse sample_env sample_ir ''not json'' 200 []
           sample_world)) = Some None"
  by (simp add: sample_parse_def sample_ir_def req_end_def handleResponse_end_def Let_def
      getLogById_def sample_world_eq new_entry_def)

text \<open>
  Claim C7, amended. When the accumulated request body of an intercepted provider call
  is not empty and does not parse, \<^verbatim>\<open>req.end\<close> records nothing: the store and the log file
  are unchanged, a warning is printed if the call carries a correlation id, and the chunk
  is forwarded to the original \<^verbatim>\<open>end\<close>, so the outbound call goes on. When the
  accumulated response body is not empty and does not parse, the \<^verbatim>\<open>end\<close> listener
  records nothing either and at most prints a warning. Neither throws.
\<close>

theorem parse_failure_drops_capture:
  "(acc @ (case chunk of None \<Rightarrow> [] | Some c \<Rightarrow> c) \<noteq> []
      \<and> parse (acc @ (case chunk of None \<Rightarrow> [] | Some c \<Rightarrow> c)) = None \<longrightarrow>
        snd (req_end S parse e ir acc chunk w)
          = w\<lparr>console := (if ir_requestId ir \<in> {None, Some []} then console w
                           else console w @ [''Failed to log transformed request:'']),
              wire := wire w @ [OrigEnd chunk]\<rparr>)
   \<and> (responseBody \<noteq> [] \<and> parse responseBody = None \<longrightarrow>
        handleResponse_end S parse e ir responseBody st hs w
          = w\<lparr>console := (if ir_requestId ir \<in> {None, Some []} then console w
                           else console w @ [''Failed to log provider response:''])\<rparr>)"
  by (cases chunk; cases "ir_requestId ir")
    (auto simp add: req_end_def handleResponse_end_def Let_def)

theorem parse_failure_drops_capture_witness:
  "sample_parse ''not json'' = None
   \<and> snd (req_end sample_stringify sample_parse sample_env sample_ir ''not '' (Some ''json'')
        sample_world)
       = sample_world\<lparr>console := [''Failed to log transformed request:''],
                      wire := [OrigEnd (Some ''json'')]\<rparr>
   \<and> handleResponse_end sample_stringify sample_parse sample_env sample_ir ''not json'' 200 []
        sample_world
       = sample_world\<lparr>console := [''Failed to log provider response:'']\<rparr>"
  using parse_failure_drops_capture [of "''not ''" "Some ''json''" sample_parse
      sample_stringify sample_env sample_ir sample_world "''not json''" 200 "[]"]
  by (simp add: sample_parse_def sample_ir_def sample_world_eq new_world_def)

subsection \<open>Correlation when requests overlap\<close>

lemma sample_two_eq:
  "sample_two =
     new_world\<lparr>logs := [(''A'', new_entry sample_stringify sample_env ''A'' sample_request),
                        (''B'', new_entry sample_stringify sample_env ''B'' sample_request)]\<rparr>"
  by (simp add: sample_two_def logRequest_def logging_disabled_def sample_env_def
      new_world_def cleanup_def)

lemma sample_provider_url:
  "isProviderRequest sample_hostname ''https://api.anthropic.com/v1/messages''"
  "extractProvider sample_hostname ''https://api.anthropic.com/v1/messages'' = ''anthropic''"
  by (simp_all add: isProviderRequest_def extractProvider_def sample_hostname_def
      providerDomains_def)

lemma armed_id_observed:
  "i \<noteq> [] \<Longrightarrow> isProviderRequest hostname_of u \<Longrightarrow>
     map_option ir_requestId
       (createInterceptor hostname_of e u m hs (preHandler ''/v1/messages'' (Some i) w))
       = Some (Some i)"
  by (simp add: createInterceptor_def preHandler_def setCurrentRequestId_def
      getCurrentRequestId_def)

text \<open>
  Claim C1 asks that a provider call made by the unit of work of one inbound request
  observes the id armed for that request, never the id armed by a request served at the
  same time. The code keeps the id in one variable of the whole process, and a call that
  follows its own \<^verbatim>\<open>preHandler\<close> directly does observe its id (lemma
  \<open>armed_id_observed\<close>). Under the interleaving \<^const>\<open>sample_trace\<close> the property
  fails. After the hooks of \<open>A\<close> and then \<open>B\<close> have run, the next intercepted call is
  tagged \<open>B\<close>, whoever makes it; so the call of \<open>A\<close> is attributed to \<open>B\<close>: at the
  end the record \<open>A\<close> has no transformed request, and the record \<open>B\<close> holds the body
  that \<open>A\<close> sent.
\<close>

theorem correlation_id_crosses_requests:
  "map_option ir_requestId
     (createInterceptor sample_hostname sample_env ''https://api.anthropic.com/v1/messages''
        ''POST'' []
        (preHandler ''/v1/messages'' (Some ''B'')
          (preHandler ''/v1/messages'' (Some ''A'') sample_two)))
     = Some (Some ''B'')
   \<and> map_option (\<lambda>r. map_option body (transformedRequest r))
        (getLogById ''A''
          (run_events sample_stringify sample_parse sample_hostname sample_trace sample_two))
       = Some None
   \<and> map_option (\<lambda>r. map_option body (transformedRequest r))
        (getLogById ''B''
          (run_events sample_stringify sample_parse sample_hostname sample_trace sample_two))
       = Some (Some (JObj [(''model'', JStr ''claude-3-from-A'')]))"
  by (simp add: sample_trace_def sample_two_eq new_world_def preHandler_def
      setCurrentRequestId_def getCurrentRequestId_def createInterceptor_def sample_provider_url
      req_end_def Let_def sample_parse_def logTransformedRequest_def logging_disabled_def
      sample_env_def getLogById_def sanitizeBody_def sample_stringify_def sample_small_def new_entry_def
      sample_big_def)

end
